theory Spec2Isabelle
  imports Main "HOL-Library.Word" "HOL-Library.Signed_Division"
begin

unbundle bit_operations_syntax

section \<open>The dictionary of dictionary.c\<close>

text \<open>
  The object verified is the hash-sorted string dictionary of \<^verbatim>\<open>dictionary.c\<close> and
  \<^verbatim>\<open>dictionary.h\<close>. A \<^verbatim>\<open>char *\<close> is a \<open>string option\<close> (\<open>None\<close> is \<^verbatim>\<open>NULL\<close>,
  \<open>Some s\<close> a C string with the bytes \<open>s\<close> before its terminator), \<^verbatim>\<open>HASH_t\<close>
  (\<^verbatim>\<open>unsigned short\<close>) is a 16-bit word, an \<^verbatim>\<open>int\<close> index is an \<open>int\<close>, and each of
  the four parallel arrays is a list whose length is the number of allocated cells.
  A field \<^verbatim>\<open>d->x\<close> is written \<open>d_x d\<close>. Heap allocation is taken to succeed and the
  dictionary handle to be a valid pointer.
\<close>

type_synonym HASH_t = "16 word"

record dictionary =
  d_filename :: string
  d_n :: int
  d_size :: int
  d_lower :: int
  d_info :: int
  d_key :: "string option list"
  d_val :: "string option list"
  d_hash :: "HASH_t list"
  d_skeys :: "HASH_t list"

text \<open>
  What C leaves undefined, and every way the functions leave without returning, is a
  value of \<open>fault\<close>: a \<^verbatim>\<open>NULL\<close> passed to \<^verbatim>\<open>strcmp\<close> or \<^verbatim>\<open>strlen\<close>, an
  access outside an array, a call of \<^verbatim>\<open>exit\<close>, a loop that does not end.
\<close>

datatype fault = NullDeref | OutOfBounds | Exit int | Diverges

definition bindF :: "fault + 'a \<Rightarrow> ('a \<Rightarrow> fault + 'b) \<Rightarrow> fault + 'b" where
  "bindF m f = (case m of Inl e \<Rightarrow> Inl e | Inr x \<Rightarrow> f x)"

definition rd :: "'a list \<Rightarrow> int \<Rightarrow> fault + 'a" where
  "rd xs i = (if 0 \<le> i \<and> i < int (length xs) then Inr (xs ! nat i) else Inl OutOfBounds)"

definition wr :: "'a list \<Rightarrow> int \<Rightarrow> 'a \<Rightarrow> fault + 'a list" where
  "wr xs i v = (if 0 \<le> i \<and> i < int (length xs) then Inr (xs[nat i := v]) else Inl OutOfBounds)"

subsection \<open>dictionary_hash\<close>

text \<open>
  \<^verbatim>\<open>hashk += *cp++\<close> adds a \<^verbatim>\<open>char\<close>, which gcc on x86 sign-extends; the sums are
  cut to 16 bits by the assignment to \<^verbatim>\<open>HASH_t\<close>.
\<close>

definition char_val :: "char \<Rightarrow> HASH_t" where
  "char_val c = scast (of_char c :: 8 word)"

fun hash_loop :: "HASH_t \<Rightarrow> string \<Rightarrow> HASH_t" where
  "hash_loop hashk [] = hashk"
| "hash_loop hashk (c # cp) =
     (let h1 = hashk + char_val c;
          h2 = h1 + push_bit 10 h1;
          h3 = h2 XOR drop_bit 6 h2
      in hash_loop h3 cp)"

definition dictionary_hash :: "string \<Rightarrow> HASH_t" where
  "dictionary_hash cp =
     (let h0 = hash_loop 0 cp;
          h1 = h0 + push_bit 3 h0;
          h2 = h1 XOR drop_bit 11 h1
      in h2 + push_bit 15 h2)"

subsection \<open>dictionary_new and dictionary_isempty\<close>

definition DICTMINSZ :: "32 word" where
  "DICTMINSZ = 64"

text \<open>
  \<^verbatim>\<open>size\<close> is \<^verbatim>\<open>unsigned\<close>: the rounding wraps at \<open>2 ^ 32\<close>, and the stores into the
  \<^verbatim>\<open>int\<close> fields reinterpret the bits.
\<close>

definition dictionary_new :: "32 word \<Rightarrow> string \<Rightarrow> fault + dictionary" where
  "dictionary_new size0 fname =
     (let size1 = (if size0 < DICTMINSZ then DICTMINSZ else size0);
          size2 = (if size1 mod 4 \<noteq> 0 then size1 + (4 - size1 mod 4) else size1);
          d = \<lparr> d_filename = fname, d_n = 1, d_size = sint size2,
                d_lower = sint (size2 - 2), d_info = 0,
                d_key = replicate (unat size2) None,
                d_val = replicate (unat size2) None,
                d_hash = replicate (unat size2) 0,
                d_skeys = replicate (unat size2) 0 \<rparr>
      in bindF (wr (d_hash d) (d_size d - 1) (- 1)) (\<lambda>h.
         bindF (wr (d_skeys d) 0 0) (\<lambda>s.
         Inr (d\<lparr>d_hash := h, d_skeys := s\<rparr>))))"

definition dictionary_isempty :: "dictionary \<Rightarrow> int" where
  "dictionary_isempty d = (if d_n d = 0 then 1 else 0)"


subsection \<open>doSwap and dictionary_quicksort\<close>

definition doSwap :: "dictionary \<Rightarrow> int \<Rightarrow> int \<Rightarrow> fault + dictionary" where
  "doSwap d i j =
     bindF (rd (d_hash d) i) (\<lambda>hi. bindF (rd (d_hash d) j) (\<lambda>hj.
     bindF (wr (d_hash d) i hj) (\<lambda>h1. bindF (wr h1 j hi) (\<lambda>h2.
     bindF (rd (d_val d) i) (\<lambda>vi. bindF (rd (d_val d) j) (\<lambda>vj.
     bindF (wr (d_val d) i vj) (\<lambda>v1. bindF (wr v1 j vi) (\<lambda>v2.
     bindF (rd (d_key d) i) (\<lambda>ki. bindF (rd (d_key d) j) (\<lambda>kj.
     bindF (wr (d_key d) i kj) (\<lambda>k1. bindF (wr k1 j ki) (\<lambda>k2.
     Inr (d\<lparr>d_key := k2, d_val := v2, d_hash := h2\<rparr>)))))))))))))"

text \<open>\<^verbatim>\<open>while(d->hash[i]<= pivotHash && i<last) i++;\<close>\<close>

function scan_up :: "dictionary \<Rightarrow> HASH_t \<Rightarrow> int \<Rightarrow> int \<Rightarrow> fault + int" where
  "scan_up d pivotHash last_ix i =
     (if 0 \<le> i \<and> i < int (length (d_hash d))
      then (if d_hash d ! nat i \<le> pivotHash \<and> i < last_ix
            then scan_up d pivotHash last_ix (i + 1) else Inr i)
      else Inl OutOfBounds)"
  by pat_completeness auto
termination
  by (relation "measure (\<lambda>(d, p, last_ix, i). nat (last_ix - i))") auto

declare scan_up.simps [simp del]

text \<open>\<^verbatim>\<open>while(d->hash[j]> pivotHash) j--;\<close>\<close>

function scan_down :: "dictionary \<Rightarrow> HASH_t \<Rightarrow> int \<Rightarrow> fault + int" where
  "scan_down d pivotHash j =
     (if 0 \<le> j \<and> j < int (length (d_hash d))
      then (if pivotHash < d_hash d ! nat j
            then scan_down d pivotHash (j - 1) else Inr j)
      else Inl OutOfBounds)"
  by pat_completeness auto
termination
  by (relation "measure (\<lambda>(d, p, j). nat (j + 1))") auto

declare scan_down.simps [simp del]

text \<open>
  The loop \<^verbatim>\<open>while(i<j)\<close> of the partition and the recursion of the sort end only
  because of how they are started, so they are partial functions: \<open>None\<close> is a run that
  does not end. The result of the loop is the dictionary and the final \<open>j\<close>.
\<close>

partial_function (option) quick_loop ::
  "dictionary \<Rightarrow> HASH_t \<Rightarrow> int \<Rightarrow> int \<Rightarrow> int \<Rightarrow> (fault + dictionary \<times> int) option" where
  "quick_loop d pivotHash last_ix i j =
     (if i < j then
        (case scan_up d pivotHash last_ix i of
           Inl e \<Rightarrow> Some (Inl e)
         | Inr i' \<Rightarrow>
            (case scan_down d pivotHash j of
               Inl e \<Rightarrow> Some (Inl e)
             | Inr j' \<Rightarrow>
                if i' < j' then
                  (case doSwap d i' j' of
                     Inl e \<Rightarrow> Some (Inl e)
                   | Inr d' \<Rightarrow> quick_loop d' pivotHash last_ix i' j')
                else quick_loop d pivotHash last_ix i' j'))
      else Some (Inr (d, j)))"

declare quick_loop.simps [code]

partial_function (option) dictionary_quicksort ::
  "dictionary \<Rightarrow> int \<Rightarrow> int \<Rightarrow> (fault + dictionary) option" where
  "dictionary_quicksort d first_ix last_ix =
     (if first_ix < last_ix then
        (case rd (d_hash d) first_ix of
           Inl e \<Rightarrow> Some (Inl e)
         | Inr pivotHash \<Rightarrow>
            Option.bind (quick_loop d pivotHash last_ix first_ix last_ix) (\<lambda>r.
              case r of
                Inl e \<Rightarrow> Some (Inl e)
              | Inr (d1, j) \<Rightarrow>
                 (case doSwap d1 first_ix j of
                    Inl e \<Rightarrow> Some (Inl e)
                  | Inr d2 \<Rightarrow>
                     Option.bind (dictionary_quicksort d2 first_ix (j - 1)) (\<lambda>r2.
                       case r2 of
                         Inl e \<Rightarrow> Some (Inl e)
                       | Inr d3 \<Rightarrow> dictionary_quicksort d3 (j + 1) last_ix))))
      else Some (Inr d))"

declare dictionary_quicksort.simps [code]

subsection \<open>dictionary_createsortedlist\<close>

text \<open>
  The scan for the first non-zero hash runs \<^verbatim>\<open>for(i=0;i<=d->size;i++)\<close>: when every
  hash is zero it reads \<^verbatim>\<open>d->hash[d->size]\<close>.
\<close>

function csl_loop :: "dictionary \<Rightarrow> int \<Rightarrow> fault + dictionary" where
  "csl_loop d i =
     (if i \<le> d_size d then
        (case rd (d_hash d) i of
           Inl e \<Rightarrow> Inl e
         | Inr h \<Rightarrow>
            if h \<noteq> 0 then Inr (d\<lparr>d_lower := (if i < 1 then 1 else i) - 1\<rparr>)
            else csl_loop d (i + 1))
      else Inr d)"
  by pat_completeness auto
termination
  by (relation "measure (\<lambda>(d, i). nat (d_size d + 1 - i))") auto

declare csl_loop.simps [simp del]

definition dictionary_createsortedlist :: "dictionary \<Rightarrow> fault + dictionary" where
  "dictionary_createsortedlist d =
     (case (if 0 < d_n d then dictionary_quicksort d 0 (d_size d - 1) else Some (Inr d)) of
        None \<Rightarrow> Inl Diverges
      | Some (Inl e) \<Rightarrow> Inl e
      | Some (Inr d1) \<Rightarrow> csl_loop d1 0)"


subsection \<open>dictionary_binsearch\<close>

text \<open>
  \<^verbatim>\<open>mid =(upper+lower)/2\<close> is C division, which truncates towards zero (\<open>sdiv\<close>).
  The search starts with \<^verbatim>\<open>upper=d->size\<close>, one past the last cell. A miss returns
  \<^verbatim>\<open>1-lower\<close>, and the early exits return \<^verbatim>\<open>1-31415927\<close>.
\<close>

lemma sdiv2_between:
  "lower \<le> upper \<Longrightarrow> lower \<le> (upper + lower) sdiv (2::int) \<and> (upper + lower) sdiv 2 \<le> upper"
  by (cases "0 \<le> upper + lower") (auto simp: signed_divide_int_def sgn_if)

function binsearch_loop :: "dictionary \<Rightarrow> HASH_t \<Rightarrow> int \<Rightarrow> int \<Rightarrow> fault + int" where
  "binsearch_loop d hashu lower upper =
     (if lower \<le> upper then
        (case rd (d_hash d) ((upper + lower) sdiv 2) of
           Inl e \<Rightarrow> Inl e
         | Inr tmp \<Rightarrow>
            if hashu = tmp then Inr ((upper + lower) sdiv 2)
            else if hashu < tmp then binsearch_loop d hashu lower ((upper + lower) sdiv 2 - 1)
            else binsearch_loop d hashu ((upper + lower) sdiv 2 + 1) upper)
      else Inr (1 - lower))"
  by pat_completeness auto
termination
proof (relation "measure (\<lambda>(d, h, lower, upper). nat (upper - lower + 1))", goal_cases)
  case 1
  show ?case by simp
next
  case (2 d hashu lower upper tmp)
  then show ?case using sdiv2_between [of lower upper] by simp
next
  case (3 d hashu lower upper tmp)
  then show ?case using sdiv2_between [of lower upper] by simp
qed

declare binsearch_loop.simps [simp del]

definition dictionary_binsearch :: "dictionary \<Rightarrow> HASH_t \<Rightarrow> fault + dictionary \<times> int" where
  "dictionary_binsearch d hashu =
     (if d_n d \<noteq> 0 then
        (case (if d_lower d < 0 then dictionary_createsortedlist d else Inr d) of
           Inl e \<Rightarrow> Inl e
         | Inr d1 \<Rightarrow>
            if d_lower d1 < 0 then Inr (d1, 1 - 31415927)
            else (case binsearch_loop d1 hashu (d_lower d1) (d_size d1) of
                    Inl e \<Rightarrow> Inl e
                  | Inr i \<Rightarrow> Inr (d1, i)))
      else Inr (d, 1 - 31415927))"

subsection \<open>dictionary_keyexist and dictionary_get\<close>


text \<open>
  The result of \<^verbatim>\<open>dictionary_get\<close> is the pointer it returns: the stored value (which
  may be \<^verbatim>\<open>NULL\<close>) or the caller's \<^verbatim>\<open>defmsg\<close>. The search may sort the dictionary, so
  the dictionary is returned too.
\<close>

definition dictionary_get ::
  "dictionary \<Rightarrow> string \<Rightarrow> string option \<Rightarrow> fault + dictionary \<times> string option" where
  "dictionary_get d key defmsg =
     (case dictionary_binsearch d (dictionary_hash key) of
        Inl e \<Rightarrow> Inl e
      | Inr (d1, i) \<Rightarrow>
         if i < 0 then Inr (d1, defmsg)
         else (case rd (d_key d1) i of
                 Inl e \<Rightarrow> Inl e
               | Inr None \<Rightarrow> Inr (d1, defmsg)
               | Inr (Some k) \<Rightarrow>
                  if key = k then bindF (rd (d_val d1) i) (\<lambda>v. Inr (d1, v))
                  else Inr (d1, defmsg)))"

subsection \<open>dictionary_realloc and dictionary_grow\<close>

text \<open>
  \<^verbatim>\<open>calloc(bytes,2*size)\<close> gives \<open>2 * size\<close> zeroed cells and \<^verbatim>\<open>memcpy\<close> copies the
  \<open>size\<close> old cells to offset \<open>size\<close>; the third argument here is the zero of the
  cell type in place of the byte count.
\<close>

definition dictionary_realloc :: "'a list \<Rightarrow> int \<Rightarrow> 'a \<Rightarrow> fault + 'a list" where
  "dictionary_realloc ptr sz zero =
     (if int (length ptr) < sz then Inl OutOfBounds
      else Inr (replicate (nat sz) zero @ take (nat sz) ptr))"


definition dictionary_grow :: "dictionary \<Rightarrow> fault + dictionary" where
  "dictionary_grow d =
     (let i = d_size d in
      bindF (dictionary_realloc (d_val d) i None) (\<lambda>v.
      bindF (dictionary_realloc (d_key d) i None) (\<lambda>k.
      bindF (dictionary_realloc (d_skeys d) i 0) (\<lambda>s.
      bindF (dictionary_realloc (d_hash d) i 0) (\<lambda>h.
      Inr (d\<lparr>d_val := v, d_key := k, d_skeys := s, d_hash := h,
              d_size := d_size d + i, d_lower := d_lower d + (i - 1)\<rparr>))))))"

subsection \<open>dictionary_set\<close>

text \<open>
  The loop that shifts the rows below the insertion point down by one. It ends either
  by \<^verbatim>\<open>goto doInsert\<close> (the flag is \<open>True\<close>) or by its test \<^verbatim>\<open>i<d->size\<close>; the
  integer returned is the final \<open>i\<close>.
\<close>

definition shift_row :: "dictionary \<Rightarrow> int \<Rightarrow> fault + dictionary" where
  "shift_row d i =
     bindF (rd (d_hash d) i) (\<lambda>h. bindF (wr (d_hash d) (i - 1) h) (\<lambda>hs.
     bindF (rd (d_key d) i) (\<lambda>k. bindF (wr (d_key d) (i - 1) k) (\<lambda>ks.
     bindF (rd (d_val d) i) (\<lambda>v. bindF (wr (d_val d) (i - 1) v) (\<lambda>vs.
     Inr (d\<lparr>d_key := ks, d_val := vs, d_hash := hs\<rparr>)))))))"

lemma shift_row_size: "shift_row d i = Inr d' \<Longrightarrow> d_size d' = d_size d"
  by (auto simp: shift_row_def bindF_def split: sum.splits)

function set_loop :: "dictionary \<Rightarrow> HASH_t \<Rightarrow> int \<Rightarrow> fault + dictionary \<times> int \<times> bool" where
  "set_loop d hashk i =
     (if i < d_size d then
        (case rd (d_hash d) i of
           Inl e \<Rightarrow> Inl e
         | Inr h \<Rightarrow>
            if h < hashk then
              (case shift_row d i of
                 Inl e \<Rightarrow> Inl e
               | Inr d' \<Rightarrow> set_loop d' hashk (i + 1))
            else Inr (d, i, True))
      else Inr (d, i, False))"
  by pat_completeness auto
termination
  by (relation "measure (\<lambda>(d, h, i). nat (d_size d - i))") (auto dest: shift_row_size)

declare set_loop.simps [simp del]

definition doInsert ::
  "dictionary \<Rightarrow> int \<Rightarrow> HASH_t \<Rightarrow> string \<Rightarrow> string option \<Rightarrow> fault + dictionary \<times> int" where
  "doInsert d j hashk key val =
     bindF (wr (d_hash d) j hashk) (\<lambda>hs.
     bindF (wr (d_key d) j (Some key)) (\<lambda>ks.
     bindF (wr (d_val d) j val) (\<lambda>vs.
     Inr (d\<lparr>d_n := d_n d + 1, d_lower := d_lower d - 1, d_info := j,
             d_key := ks, d_val := vs, d_hash := hs\<rparr>, 0))))"

text \<open>
  In the branch for a key that is found, \<^verbatim>\<open>strcmp(key, cpdk)\<close> and \<^verbatim>\<open>strlen(val)\<close>
  dereference their arguments. Both arms of the length test leave the bytes of \<open>val\<close>
  in the cell; a cell holding \<^verbatim>\<open>NULL\<close> is not written. The branch \<^verbatim>\<open>i > d->size\<close>
  stores into row \<^verbatim>\<open>d->size-d->n\<close> and calls \<^verbatim>\<open>exit(0)\<close>; the branch for a non-zero
  hash at \<^verbatim>\<open>d->lower\<close> calls \<^verbatim>\<open>dictionary_del\<close>, whose loop
  \<^verbatim>\<open>for (i=0 ; i<=d->size ; i++)\<close> reads \<^verbatim>\<open>d->hash[d->size]\<close>, before \<^verbatim>\<open>exit(-1)\<close>.
\<close>

definition dictionary_set ::
  "dictionary \<Rightarrow> string option \<Rightarrow> string option \<Rightarrow> fault + dictionary \<times> int" where
  "dictionary_set d key val =
     (case key of
        None \<Rightarrow> Inr (d, - 1)
      | Some k \<Rightarrow>
         (case dictionary_binsearch d (dictionary_hash k) of
            Inl e \<Rightarrow> Inl e
          | Inr (d1, i) \<Rightarrow>
             if 0 < i then
               (case rd (d_key d1) i of
                  Inl e \<Rightarrow> Inl e
                | Inr None \<Rightarrow> Inl NullDeref
                | Inr (Some cpdk) \<Rightarrow>
                   if k = cpdk then
                     (case rd (d_val d1) i of
                        Inl e \<Rightarrow> Inl e
                      | Inr None \<Rightarrow> Inr (d1\<lparr>d_info := i\<rparr>, 0)
                      | Inr (Some cpdv) \<Rightarrow>
                         (case val of
                            None \<Rightarrow> Inl NullDeref
                          | Some v \<Rightarrow>
                             Inr (d1\<lparr>d_info := i, d_val := (d_val d1)[nat i := Some v]\<rparr>, 0)))
                   else Inr (d1, - 1))
             else if d_size d1 < - i then
               (if 0 \<le> d_size d1 - (d_n d1 + 1)
                   \<and> d_size d1 - (d_n d1 + 1) < int (length (d_key d1))
                then Inl (Exit 0) else Inl OutOfBounds)
             else
               (case (if d_n d1 = d_size d1 then dictionary_grow d1 else Inr d1) of
                  Inl e \<Rightarrow> Inl e
                | Inr d2 \<Rightarrow>
                   (case rd (d_hash d2) (d_lower d2) of
                      Inl e \<Rightarrow> Inl e
                    | Inr h \<Rightarrow>
                       if h \<noteq> 0 then Inl OutOfBounds
                       else
                         (case set_loop d2 (dictionary_hash k) (d_lower d2 + 1) of
                            Inl e \<Rightarrow> Inl e
                          | Inr (d3, i3, jumped) \<Rightarrow>
                             if jumped \<or> i3 = d_size d3
                             then doInsert d3 (i3 - 1) (dictionary_hash k) k val
                             else Inr (d3, - 1))))))"

subsection \<open>dictionary_unset\<close>

text \<open>The inner scan \<^verbatim>\<open>for (k=lower;k<=size;k++) if(!strcmp(key,d->key[k])) break;\<close>\<close>

function unset_scan :: "dictionary \<Rightarrow> string \<Rightarrow> int \<Rightarrow> int \<Rightarrow> fault + int" where
  "unset_scan d key sz k =
     (if k \<le> sz then
        (case rd (d_key d) k of
           Inl e \<Rightarrow> Inl e
         | Inr None \<Rightarrow> Inl NullDeref
         | Inr (Some s) \<Rightarrow> if key = s then Inr k else unset_scan d key sz (k + 1))
      else Inr k)"
  by pat_completeness auto
termination
  by (relation "measure (\<lambda>(d, key, sz, k). nat (sz + 1 - k))") auto

declare unset_scan.simps [simp del]

text \<open>
  The search loop \<^verbatim>\<open>for (; i<=size ; i++)\<close>. After the inner scan it continues from
  \<open>k + 1\<close>, which may lie below the current \<open>i\<close>, so the loop is a partial function.
\<close>

partial_function (option) unset_find ::
  "dictionary \<Rightarrow> string \<Rightarrow> HASH_t \<Rightarrow> int \<Rightarrow> int \<Rightarrow> int \<Rightarrow> (fault + int) option" where
  "unset_find d key hashk lower sz i =
     (if i \<le> sz then
        (case rd (d_hash d) i of
           Inl e \<Rightarrow> Some (Inl e)
         | Inr h \<Rightarrow>
            if hashk = h then
              (case rd (d_key d) i of
                 Inl e \<Rightarrow> Some (Inl e)
               | Inr None \<Rightarrow> unset_find d key hashk lower sz (i + 1)
               | Inr (Some s) \<Rightarrow>
                  if key = s then Some (Inr i)
                  else (case unset_scan d key sz lower of
                          Inl e \<Rightarrow> Some (Inl e)
                        | Inr k \<Rightarrow> unset_find d key hashk lower sz (k + 1)))
            else unset_find d key hashk lower sz (i + 1))
      else Some (Inr i))"

declare unset_find.simps [code]

text \<open>One of the three loops \<^verbatim>\<open>for (k=i;k>lower;k--)\<close> that move a column up by one row.\<close>

function unset_shift :: "'a list \<Rightarrow> int \<Rightarrow> int \<Rightarrow> fault + 'a list" where
  "unset_shift xs lower k =
     (if lower < k then
        (case rd xs (k - 1) of
           Inl e \<Rightarrow> Inl e
         | Inr x \<Rightarrow>
            (case wr xs k x of
               Inl e \<Rightarrow> Inl e
             | Inr xs' \<Rightarrow> unset_shift xs' lower (k - 1)))
      else Inr xs)"
  by pat_completeness auto
termination
  by (relation "measure (\<lambda>(xs, lower, k). nat (k - lower))") auto

declare unset_shift.simps [simp del]

definition dictionary_unset :: "dictionary \<Rightarrow> string option \<Rightarrow> fault + dictionary \<times> int" where
  "dictionary_unset d key =
     (case key of
        None \<Rightarrow> Inr (d, 0x0fffffff)
      | Some k \<Rightarrow>
         (case dictionary_binsearch d (dictionary_hash k) of
            Inl e \<Rightarrow> Inl e
          | Inr (d1, i0) \<Rightarrow>
             if i0 < 0 then Inr (d1, i0)
             else
               (case rd (d_hash d1) i0 of
                  Inl e \<Rightarrow> Inl e
                | Inr h0 \<Rightarrow>
                   if h0 \<noteq> dictionary_hash k then Inr (d1, i0)
                   else
                     (case unset_find d1 k (dictionary_hash k) (d_lower d1) (d_size d1 - 1) i0 of
                        None \<Rightarrow> Inl Diverges
                      | Some (Inl e) \<Rightarrow> Inl e
                      | Some (Inr i) \<Rightarrow>
                         if d_size d1 - 1 < i then Inr (d1, i)
                         else
                           bindF (rd (d_hash d1) i) (\<lambda>hi.
                           bindF (unset_shift (d_key d1) (d_lower d1) i) (\<lambda>ks.
                           bindF (unset_shift (d_val d1) (d_lower d1) i) (\<lambda>vs.
                           bindF (unset_shift (d_hash d1) (d_lower d1) i) (\<lambda>hs.
                           bindF (wr ks (d_lower d1) None) (\<lambda>ks'.
                           bindF (wr vs (d_lower d1) None) (\<lambda>vs'.
                           bindF (wr hs (d_lower d1) 0) (\<lambda>hs'.
                           Inr (d1\<lparr>d_n := d_n d1 - 1, d_lower := d_lower d1 + 1,
                                    d_key := ks', d_val := vs', d_hash := hs'\<rparr>, 0))))))))))))"


subsection \<open>dictionary_trim\<close>










text \<open>The size that \<^verbatim>\<open>dictionary_new\<close> allocates for a request of \<open>size0\<close> cells.\<close>

definition new_size :: "32 word \<Rightarrow> 32 word" where
  "new_size size0 =
     (let size1 = (if size0 < DICTMINSZ then DICTMINSZ else size0)
      in if size1 mod 4 \<noteq> 0 then size1 + (4 - size1 mod 4) else size1)"


subsection \<open>Predicates on dictionaries\<close>

text \<open>
  \<open>asc_on hs lo hi\<close>: the hashes of the rows \<open>lo, \<dots>, hi\<close> do not decrease;
  \<open>strict_on\<close>: they increase. \<open>same_hashes d d'\<close>: \<open>d'\<close> is \<open>d\<close> up to the contents of
  the key and value columns.
\<close>

definition asc_on :: "HASH_t list \<Rightarrow> int \<Rightarrow> int \<Rightarrow> bool" where
  "asc_on hs lo hi \<longleftrightarrow> (\<forall>a b. lo \<le> a \<and> a \<le> b \<and> b \<le> hi \<longrightarrow> hs ! nat a \<le> hs ! nat b)"


definition strict_on :: "HASH_t list \<Rightarrow> int \<Rightarrow> int \<Rightarrow> bool" where
  "strict_on hs lo hi \<longleftrightarrow> (\<forall>a b. lo \<le> a \<and> a < b \<and> b \<le> hi \<longrightarrow> hs ! nat a < hs ! nat b)"





subsection \<open>Sequences of calls\<close>




subsection \<open>Dictionaries of the scenarios\<close>

text \<open>
  \<open>fresh64\<close> is what \<^verbatim>\<open>dictionary_new(0, "fstab")\<close> returns. \<open>null64\<close> is \<open>fresh64\<close> after
  \<^verbatim>\<open>dictionary_set(d, "sda1", NULL)\<close>. \<open>full64\<close> is \<open>fresh64\<close> after the 63 calls
  \<^verbatim>\<open>dictionary_set(d, k, v)\<close> for the rows of \<open>uuid_rows\<close>: every row is used,
  \<open>n = size\<close> and \<open>lower = -1\<close>; \<open>sorted64\<close> is \<open>full64\<close> after the sort that the next
  search runs. \<open>bhks128\<close>, \<open>dup128\<close> and \<open>back128\<close> are the dictionaries that the calls on
  \<open>full64\<close> below return. \<open>swap64\<close> is \<open>fresh64\<close> after the calls of the witness of
  the order invariant.
\<close>

definition fresh64 :: dictionary where
  "fresh64 =
     \<lparr> d_filename = ''fstab'', d_n = 1, d_size = 64, d_lower = 62, d_info = 0,
       d_key = replicate 64 None, d_val = replicate 64 None,
       d_hash = replicate 63 0 @ [65535], d_skeys = replicate 64 0 \<rparr>"

fun set_all :: "dictionary \<Rightarrow> (string \<times> string) list \<Rightarrow> fault + dictionary" where
  "set_all d [] = Inr d"
| "set_all d ((k, v) # kvs) =
     (case dictionary_set d (Some k) (Some v) of
        Inl e \<Rightarrow> Inl e
      | Inr (d', rc) \<Rightarrow> if rc = 0 then set_all d' kvs else Inl (Exit rc))"

definition uuid_rows :: "(string \<times> string) list" where
  "uuid_rows =
    [
     (''uuid-0048'', ''sd48''), (''uuid-0007'', ''sd7''), (''uuid-0036'', ''sd36''),
     (''uuid-0026'', ''sd26''), (''uuid-0050'', ''sd50''), (''uuid-0060'', ''sd60''),
     (''uuid-0032'', ''sd32''), (''uuid-0053'', ''sd53''), (''uuid-0039'', ''sd39''),
     (''uuid-0003'', ''sd3''), (''uuid-0063'', ''sd63''), (''uuid-0025'', ''sd25''),
     (''uuid-0006'', ''sd6''), (''uuid-0035'', ''sd35''), (''uuid-0009'', ''sd9''),
     (''uuid-0028'', ''sd28''), (''uuid-0046'', ''sd46''), (''uuid-0002'', ''sd2''),
     (''uuid-0011'', ''sd11''), (''uuid-0059'', ''sd59''), (''uuid-0062'', ''sd62''),
     (''uuid-0042'', ''sd42''), (''uuid-0015'', ''sd15''), (''uuid-0055'', ''sd55''),
     (''uuid-0030'', ''sd30''), (''uuid-0008'', ''sd8''), (''uuid-0037'', ''sd37''),
     (''uuid-0027'', ''sd27''), (''uuid-0010'', ''sd10''), (''uuid-0001'', ''sd1''),
     (''uuid-0020'', ''sd20''), (''uuid-0014'', ''sd14''), (''uuid-0041'', ''sd41''),
     (''uuid-0054'', ''sd54''), (''uuid-0013'', ''sd13''), (''uuid-0004'', ''sd4''),
     (''uuid-0017'', ''sd17''), (''uuid-0044'', ''sd44''), (''uuid-0057'', ''sd57''),
     (''uuid-0022'', ''sd22''), (''uuid-0040'', ''sd40''), (''uuid-0029'', ''sd29''),
     (''uuid-0047'', ''sd47''), (''uuid-0012'', ''sd12''), (''uuid-0016'', ''sd16''),
     (''uuid-0043'', ''sd43''), (''uuid-0056'', ''sd56''), (''uuid-0031'', ''sd31''),
     (''uuid-0019'', ''sd19''), (''uuid-0052'', ''sd52''), (''uuid-0038'', ''sd38''),
     (''uuid-0021'', ''sd21''), (''uuid-0024'', ''sd24''), (''uuid-0034'', ''sd34''),
     (''uuid-0049'', ''sd49''), (''uuid-0005'', ''sd5''), (''uuid-0018'', ''sd18''),
     (''uuid-0045'', ''sd45''), (''uuid-0051'', ''sd51''), (''uuid-0058'', ''sd58''),
     (''uuid-0061'', ''sd61''), (''uuid-0023'', ''sd23''), (''uuid-0033'', ''sd33'')]"

definition full64 :: dictionary where
  "full64 =
     \<lparr> d_filename = ''fstab'', d_n = 64, d_size = 64, d_lower = - 1, d_info = 0,
       d_key =
        [
         Some ''uuid-0033'', Some ''uuid-0023'', Some ''uuid-0061'', Some ''uuid-0058'',
         Some ''uuid-0051'', Some ''uuid-0045'', Some ''uuid-0018'', Some ''uuid-0005'',
         Some ''uuid-0049'', Some ''uuid-0034'', Some ''uuid-0024'', Some ''uuid-0021'',
         Some ''uuid-0038'', Some ''uuid-0052'', Some ''uuid-0019'', Some ''uuid-0031'',
         Some ''uuid-0056'', Some ''uuid-0043'', Some ''uuid-0016'', Some ''uuid-0012'',
         Some ''uuid-0047'', Some ''uuid-0029'', Some ''uuid-0040'', Some ''uuid-0022'',
         Some ''uuid-0057'', Some ''uuid-0044'', Some ''uuid-0017'', Some ''uuid-0004'',
         Some ''uuid-0013'', Some ''uuid-0054'', Some ''uuid-0041'', Some ''uuid-0014'',
         Some ''uuid-0020'', Some ''uuid-0001'', Some ''uuid-0010'', Some ''uuid-0027'',
         Some ''uuid-0037'', Some ''uuid-0008'', Some ''uuid-0030'', Some ''uuid-0055'',
         Some ''uuid-0015'', Some ''uuid-0042'', Some ''uuid-0062'', Some ''uuid-0059'',
         Some ''uuid-0011'', Some ''uuid-0002'', Some ''uuid-0046'', Some ''uuid-0028'',
         Some ''uuid-0009'', Some ''uuid-0035'', Some ''uuid-0006'', Some ''uuid-0025'',
         Some ''uuid-0063'', Some ''uuid-0003'', Some ''uuid-0039'', Some ''uuid-0053'',
         Some ''uuid-0032'', Some ''uuid-0060'', Some ''uuid-0050'', Some ''uuid-0026'',
         Some ''uuid-0036'', Some ''uuid-0007'', Some ''uuid-0048'', None],
       d_val =
        [
         Some ''sd33'', Some ''sd23'', Some ''sd61'', Some ''sd58'', Some ''sd51'',
         Some ''sd45'', Some ''sd18'', Some ''sd5'', Some ''sd49'', Some ''sd34'',
         Some ''sd24'', Some ''sd21'', Some ''sd38'', Some ''sd52'', Some ''sd19'',
         Some ''sd31'', Some ''sd56'', Some ''sd43'', Some ''sd16'', Some ''sd12'',
         Some ''sd47'', Some ''sd29'', Some ''sd40'', Some ''sd22'', Some ''sd57'',
         Some ''sd44'', Some ''sd17'', Some ''sd4'', Some ''sd13'', Some ''sd54'',
         Some ''sd41'', Some ''sd14'', Some ''sd20'', Some ''sd1'', Some ''sd10'',
         Some ''sd27'', Some ''sd37'', Some ''sd8'', Some ''sd30'', Some ''sd55'',
         Some ''sd15'', Some ''sd42'', Some ''sd62'', Some ''sd59'', Some ''sd11'',
         Some ''sd2'', Some ''sd46'', Some ''sd28'', Some ''sd9'', Some ''sd35'', Some ''sd6'',
         Some ''sd25'', Some ''sd63'', Some ''sd3'', Some ''sd39'', Some ''sd53'',
         Some ''sd32'', Some ''sd60'', Some ''sd50'', Some ''sd26'', Some ''sd36'',
         Some ''sd7'', Some ''sd48'', None],
       d_hash =
        [
         712, 1706, 2278, 2995, 5235, 5461, 6085, 7984, 8710, 10948, 11060, 12225, 13363,
         14591, 15163, 15341, 18116, 20024, 20104, 22279, 22415, 23943, 24433, 25151, 27254,
         29120, 29200, 31365, 31397, 32161, 33507, 34163, 35676, 36062, 36382, 38044, 38206,
         38380, 38990, 41537, 43213, 43709, 44637, 44828, 45426, 45970, 46090, 47362, 47744,
         52823, 52961, 53169, 53723, 55302, 55536, 56748, 57192, 58738, 61399, 61449, 61913,
         62351, 64868, 65535],
       d_skeys = replicate 64 0 \<rparr>"

definition sorted64 :: dictionary where
  "sorted64 = full64\<lparr>d_lower := 0\<rparr>"

definition bhks128 :: dictionary where
  "bhks128 =
     full64\<lparr>d_n := 65, d_size := 128, d_lower := 62, d_info := 63,
            d_key := replicate 63 None @ Some ''bhks'' # d_key full64,
            d_val := replicate 63 None @ Some ''x'' # d_val full64,
            d_hash := replicate 63 0 @ 712 # d_hash full64,
            d_skeys := replicate 128 0\<rparr>"

definition dup128 :: dictionary where
  "dup128 =
     full64\<lparr>d_n := 65, d_size := 128, d_lower := 62, d_info := 63,
            d_key := replicate 63 None @ Some ''uuid-0033'' # d_key full64,
            d_val := replicate 63 None @ Some ''new'' # d_val full64,
            d_hash := replicate 63 0 @ 712 # d_hash full64,
            d_skeys := replicate 128 0\<rparr>"

definition back128 :: dictionary where
  "back128 =
     full64\<lparr>d_n := 64, d_size := 128, d_lower := 63, d_info := 63,
            d_key := replicate 64 None @ d_key full64,
            d_val := replicate 64 None @ d_val full64,
            d_hash := replicate 64 0 @ d_hash full64,
            d_skeys := replicate 128 0\<rparr>"

definition null64 :: dictionary where
  "null64 =
     \<lparr> d_filename = ''fstab'', d_n = 2, d_size = 64, d_lower = 61, d_info = 62,
       d_key = replicate 62 None @ [Some ''sda1'', None], d_val = replicate 64 None,
       d_hash = replicate 62 0 @ [7320, 65535], d_skeys = replicate 64 0 \<rparr>"



section \<open>Properties\<close>

subsection \<open>Words, array cells and the fault monad\<close>

lemma sint_pos_unat: fixes w :: "32 word" shows "0 \<le> sint w \<Longrightarrow> sint w = int (unat w)"
proof -
  assume a: "0 \<le> sint w"
  have "sint w < 2 ^ 31" using sint_lt [of w] by simp
  then have "take_bit 32 (sint w) = sint w" using a by (simp add: take_bit_int_eq_self)
  then have "uint w = sint w" using uint_sint [of w] by simp
  then show ?thesis by simp
qed

lemma sint_sub2: fixes w :: "32 word" shows "1 \<le> sint w \<Longrightarrow> sint (w - 2) = sint w - 2"
proof -
  assume a: "1 \<le> sint w"
  have b: "sint w < 2 ^ 31" using sint_lt [of w] by simp
  have "sint (w - 2) = signed_take_bit 31 (sint w - sint (2 :: 32 word))"
    using sint_word_diff [of w 2] by simp
  also have "\<dots> = signed_take_bit 31 (sint w - 2)" by simp
  also have "\<dots> = sint w - 2" using a b by (intro signed_take_bit_int_eq_self) auto
  finally show ?thesis .
qed

lemma unat_pos_sint: fixes w :: "32 word" shows "unat w < 2 ^ 31 \<Longrightarrow> sint w = int (unat w)"
proof -
  assume a: "unat w < 2 ^ 31"
  then have "int (unat w) < int (2 ^ 31)" by (rule iffD2 [OF of_nat_less_iff])
  then have "uint w < 2 ^ 31" by simp
  moreover have "- (2 ^ 31) \<le> uint w" by (rule order_trans [of _ 0]) simp_all
  ultimately have "signed_take_bit 31 (uint w) = uint w" by (intro signed_take_bit_int_eq_self)
  then show ?thesis using sint_uint [of w] by simp
qed

lemma round4_unat:
  fixes s :: "32 word"
  shows "unat (if s mod 4 \<noteq> 0 then s + (4 - s mod 4) else s) = (if unat s mod 4 \<noteq> 0 then (unat s + (4 - unat s mod 4)) mod 2 ^ 32 else unat s)"
proof -
  have m: "unat (s mod 4) = unat s mod 4" by (simp add: unat_mod)
  have z: "(s mod 4 = 0) = (unat s mod 4 = 0)" using m by (metis unat_0 unat_eq_zero)
  have le: "s mod 4 \<le> 4" by (simp add: word_le_nat_alt m)
  have "unat (4 - s mod 4) = 4 - unat s mod 4" using unat_sub [OF le] m by simp
  then show ?thesis using z by (simp add: unat_word_ariths)
qed

lemma rd_Inr: "rd xs i = Inr x \<longleftrightarrow> 0 \<le> i \<and> i < int (length xs) \<and> x = xs ! nat i"
  by (auto simp: rd_def)

lemma wr_Inr: "wr xs i v = Inr ys \<longleftrightarrow> 0 \<le> i \<and> i < int (length xs) \<and> ys = xs[nat i := v]"
  by (auto simp: wr_def)

lemma bindF_Inr: "bindF m f = Inr y \<longleftrightarrow> (\<exists>x. m = Inr x \<and> f x = Inr y)"
  by (cases m) (auto simp: bindF_def)

lemma dictionary_new_alt:
  "dictionary_new size0 fname =
     bindF (wr (replicate (unat (new_size size0)) 0) (sint (new_size size0) - 1) (- 1)) (\<lambda>h.
     bindF (wr (replicate (unat (new_size size0)) 0) 0 0) (\<lambda>s.
       Inr \<lparr> d_filename = fname, d_n = 1, d_size = sint (new_size size0),
             d_lower = sint (new_size size0 - 2), d_info = 0,
             d_key = replicate (unat (new_size size0)) None,
             d_val = replicate (unat (new_size size0)) None,
             d_hash = h, d_skeys = s \<rparr>))"
  by (simp only: dictionary_new_def new_size_def Let_def dictionary.simps dictionary.update_convs)

lemma dictionary_new_Inr:
  "dictionary_new size0 fname = Inr d \<longleftrightarrow>
     1 \<le> sint (new_size size0) \<and>
     d = \<lparr> d_filename = fname, d_n = 1, d_size = sint (new_size size0),
           d_lower = sint (new_size size0) - 2, d_info = 0,
           d_key = replicate (unat (new_size size0)) None,
           d_val = replicate (unat (new_size size0)) None,
           d_hash = (replicate (unat (new_size size0)) 0)[nat (sint (new_size size0) - 1) := - 1],
           d_skeys = replicate (unat (new_size size0)) 0 \<rparr>"
proof (cases "1 \<le> sint (new_size size0)")
  case True
  have s: "sint (new_size size0) = int (unat (new_size size0))"
    using True sint_pos_unat [of "new_size size0"] by simp
  have l: "sint (new_size size0 - 2) = sint (new_size size0) - 2"
    using True by (rule sint_sub2)
  have p: "0 < unat (new_size size0)" using True s by linarith
  show ?thesis
    unfolding dictionary_new_alt bindF_Inr wr_Inr l
    using True s p by (auto simp: list_update_same_conv)
next
  case False
  then show ?thesis
    unfolding dictionary_new_alt bindF_Inr wr_Inr by auto
qed

lemma unat_new_size:
  "unat (new_size size0) =
     (if (max 64 (unat size0)) mod 4 \<noteq> 0
      then (max 64 (unat size0) + (4 - max 64 (unat size0) mod 4)) mod 2 ^ 32
      else max 64 (unat size0))"
proof -
  have "unat (if size0 < DICTMINSZ then DICTMINSZ else size0) = max 64 (unat size0)"
    by (simp add: DICTMINSZ_def word_less_nat_alt max_def)
  then show ?thesis
    unfolding new_size_def Let_def round4_unat by simp
qed

lemma new_size_ok:
  assumes "size0 \<le> 0x7FFFFFFC"
  shows "sint (new_size size0) = int (unat (new_size size0))" and "64 \<le> unat (new_size size0)"
proof -
  have u: "unat size0 \<le> 2147483644" using assms by (simp add: word_le_nat_alt)
  have b: "64 \<le> unat (new_size size0) \<and> unat (new_size size0) \<le> 2147483644"
    unfolding unat_new_size using u by (simp add: max_def) presburger
  then have "unat (new_size size0) < 2 ^ 31" by simp
  then show "sint (new_size size0) = int (unat (new_size size0))" by (rule unat_pos_sint)
  show "64 \<le> unat (new_size size0)" using b by simp
qed

subsection \<open>Growth\<close>

lemma dictionary_realloc_Inr:
  "length ptr = nat sz \<Longrightarrow> 0 \<le> sz \<Longrightarrow> dictionary_realloc ptr sz z = Inr (replicate (nat sz) z @ ptr)"
  by (simp add: dictionary_realloc_def)

lemma dictionary_grow_Inr:
  assumes "0 \<le> d_size d"
    and "length (d_val d) = nat (d_size d)" and "length (d_key d) = nat (d_size d)"
    and "length (d_hash d) = nat (d_size d)" and "length (d_skeys d) = nat (d_size d)"
  shows "dictionary_grow d =
     Inr (d\<lparr>d_val := replicate (nat (d_size d)) None @ d_val d,
            d_key := replicate (nat (d_size d)) None @ d_key d,
            d_skeys := replicate (nat (d_size d)) 0 @ d_skeys d,
            d_hash := replicate (nat (d_size d)) 0 @ d_hash d,
            d_size := 2 * d_size d,
            d_lower := d_lower d + d_size d - 1\<rparr>)"
  using assms by (simp add: dictionary_grow_def Let_def dictionary_realloc_Inr bindF_def)

subsection \<open>Trimming\<close>





subsection \<open>Sorting a sorted dictionary\<close>

lemma scan_up_spec:
  "0 \<le> i \<Longrightarrow> i \<le> last_ix \<Longrightarrow> last_ix < int (length (d_hash d)) \<Longrightarrow>
     \<exists>i'. scan_up d p last_ix i = Inr i' \<and> i \<le> i' \<and> i' \<le> last_ix \<and>
          (\<forall>k. i \<le> k \<and> k < i' \<longrightarrow> d_hash d ! nat k \<le> p) \<and>
          (i' = last_ix \<or> p < d_hash d ! nat i')"
proof (induction d p last_ix i rule: scan_up.induct)
  case (1 d p last_ix i)
  show ?case
  proof (cases "d_hash d ! nat i \<le> p \<and> i < last_ix")
    case True
    with "1.prems" have "\<exists>i'. scan_up d p last_ix (i + 1) = Inr i' \<and> i + 1 \<le> i' \<and> i' \<le> last_ix \<and>
          (\<forall>k. i + 1 \<le> k \<and> k < i' \<longrightarrow> d_hash d ! nat k \<le> p) \<and>
          (i' = last_ix \<or> p < d_hash d ! nat i')"
      by (intro "1.IH") auto
    then obtain i' where r: "scan_up d p last_ix (i + 1) = Inr i'" "i + 1 \<le> i'" "i' \<le> last_ix"
      "\<forall>k. i + 1 \<le> k \<and> k < i' \<longrightarrow> d_hash d ! nat k \<le> p" "i' = last_ix \<or> p < d_hash d ! nat i'"
      by blast
    have "\<forall>k. i \<le> k \<and> k < i' \<longrightarrow> d_hash d ! nat k \<le> p"
    proof (intro allI impI)
      fix k assume "i \<le> k \<and> k < i'"
      then consider "k = i" | "i + 1 \<le> k \<and> k < i'" by linarith
      then show "d_hash d ! nat k \<le> p" using True r(4) by cases auto
    qed
    with r True "1.prems" show ?thesis
      by (subst scan_up.simps) auto
  next
    case False
    with "1.prems" show ?thesis
      by (subst scan_up.simps) auto
  qed
qed

lemma scan_down_spec:
  "0 \<le> lo \<Longrightarrow> lo \<le> j \<Longrightarrow> j < int (length (d_hash d)) \<Longrightarrow> d_hash d ! nat lo \<le> p \<Longrightarrow>
     \<exists>j'. scan_down d p j = Inr j' \<and> lo \<le> j' \<and> j' \<le> j \<and> d_hash d ! nat j' \<le> p \<and>
          (\<forall>k. j' < k \<and> k \<le> j \<longrightarrow> p < d_hash d ! nat k)"
proof (induction d p j rule: scan_down.induct)
  case (1 d p j)
  show ?case
  proof (cases "p < d_hash d ! nat j")
    case True
    with "1.prems" have "lo < j" by (cases "lo = j") auto
    with True "1.prems" have "\<exists>j'. scan_down d p (j - 1) = Inr j' \<and> lo \<le> j' \<and> j' \<le> j - 1 \<and> d_hash d ! nat j' \<le> p \<and>
          (\<forall>k. j' < k \<and> k \<le> j - 1 \<longrightarrow> p < d_hash d ! nat k)"
      by (intro "1.IH") auto
    then obtain j' where r: "scan_down d p (j - 1) = Inr j'" "lo \<le> j'" "j' \<le> j - 1" "d_hash d ! nat j' \<le> p"
          "\<forall>k. j' < k \<and> k \<le> j - 1 \<longrightarrow> p < d_hash d ! nat k" by blast
    have "\<forall>k. j' < k \<and> k \<le> j \<longrightarrow> p < d_hash d ! nat k"
    proof (intro allI impI)
      fix k assume "j' < k \<and> k \<le> j"
      then consider "k = j" | "j' < k \<and> k \<le> j - 1" by linarith
      then show "p < d_hash d ! nat k" using True r(5) by cases auto
    qed
    with r True "1.prems" show ?thesis
      by (subst scan_down.simps) auto
  next
    case False
    with "1.prems" show ?thesis
      by (subst scan_down.simps) auto
  qed
qed


lemma doSwap_Inr:
  assumes "0 \<le> i" "i < int (length (d_hash d))" "0 \<le> j" "j < int (length (d_hash d))"
    and "length (d_key d) = length (d_hash d)" "length (d_val d) = length (d_hash d)"
  shows "doSwap d i j =
     Inr (d\<lparr>d_key := (d_key d)[nat i := d_key d ! nat j, nat j := d_key d ! nat i],
            d_val := (d_val d)[nat i := d_val d ! nat j, nat j := d_val d ! nat i],
            d_hash := (d_hash d)[nat i := d_hash d ! nat j, nat j := d_hash d ! nat i]\<rparr>)"
  using assms by (simp add: doSwap_def rd_def wr_def bindF_def)

lemma quick_loop_sorted:
  assumes "0 \<le> first_ix" "first_ix < last_ix" "last_ix < int (length (d_hash d))"
    and "asc_on (d_hash d) first_ix last_ix"
  shows "\<exists>j. quick_loop d (d_hash d ! nat first_ix) last_ix first_ix last_ix = Some (Inr (d, j)) \<and>
           first_ix \<le> j \<and> j \<le> last_ix \<and> d_hash d ! nat j = d_hash d ! nat first_ix"
proof -
  let ?p = "d_hash d ! nat first_ix"
  obtain i' where u: "scan_up d ?p last_ix first_ix = Inr i'" "first_ix \<le> i'" "i' \<le> last_ix"
      "i' = last_ix \<or> ?p < d_hash d ! nat i'"
    using scan_up_spec [of first_ix last_ix d ?p] assms by auto
  obtain j' where w: "scan_down d ?p last_ix = Inr j'" "first_ix \<le> j'" "j' \<le> last_ix"
      "d_hash d ! nat j' \<le> ?p"
    using scan_down_spec [of first_ix last_ix d ?p] assms by auto
  have n: "\<not> i' < j'"
  proof
    assume l: "i' < j'"
    then have "?p < d_hash d ! nat i'" using u w by auto
    moreover have "d_hash d ! nat i' \<le> d_hash d ! nat j'"
      using assms(4) l u w unfolding asc_on_def by auto
    ultimately show False using w(4) by simp
  qed
  have "?p \<le> d_hash d ! nat j'"
    using assms(4) w unfolding asc_on_def by auto
  then have e: "d_hash d ! nat j' = ?p" using w(4) by simp
  have "quick_loop d ?p last_ix first_ix last_ix = quick_loop d ?p last_ix i' j'"
    using assms(2) u(1) w(1) n by (subst quick_loop.simps) simp
  also have "\<dots> = Some (Inr (d, j'))"
    using n by (subst quick_loop.simps) simp
  finally show ?thesis using w e by blast
qed





subsection \<open>Binary search\<close>

lemma sdiv2_nonneg: "0 \<le> a \<Longrightarrow> a sdiv (2::int) = a div 2"
  by (simp add: signed_divide_int_def sgn_if)

lemma binsearch_loop_found:
  assumes "strict_on (d_hash d) lo0 hi" "hi < int (length (d_hash d))"
    and "0 \<le> lo0" "lo0 \<le> lower" "lower \<le> idx" "idx \<le> upper" "idx \<le> hi" "upper \<le> hi + 1"
    and "d_hash d ! nat idx = hashu"
  shows "binsearch_loop d hashu lower upper = Inr idx"
  using assms
proof (induction d hashu lower upper rule: binsearch_loop.induct)
  case (1 d hashu lower upper)
  let ?mid = "(upper + lower) sdiv 2"
  have m: "lower \<le> ?mid" "?mid \<le> upper"
    using sdiv2_between [of lower upper] "1.prems" by auto
  have mt: "?mid \<le> hi"
  proof (rule ccontr)
    assume "\<not> ?mid \<le> hi"
    then have e: "?mid = hi + 1" "upper = hi + 1" using m "1.prems" by auto
    then have "upper + lower \<ge> 2 * upper" using sdiv2_nonneg [of "upper + lower"] "1.prems" by auto
    then show False using e "1.prems" by auto
  qed
  have r: "rd (d_hash d) ?mid = Inr (d_hash d ! nat ?mid)"
    using m mt "1.prems" by (simp add: rd_def)
  show ?case
  proof (cases "hashu = d_hash d ! nat ?mid")
    case True
    have "?mid = idx"
    proof (rule ccontr)
      assume "?mid \<noteq> idx"
      then consider "?mid < idx" | "idx < ?mid" by linarith
      then show False
      proof cases
        case 1
        then have "d_hash d ! nat ?mid < d_hash d ! nat idx"
          using "1.prems" m unfolding strict_on_def by auto
        then show False using True "1.prems" by simp
      next
        case 2
        then have "d_hash d ! nat idx < d_hash d ! nat ?mid"
          using "1.prems" m mt unfolding strict_on_def by auto
        then show False using True "1.prems" by simp
      qed
    qed
    then show ?thesis using True r "1.prems" by (subst binsearch_loop.simps) simp
  next
    case False
    show ?thesis
    proof (cases "hashu < d_hash d ! nat ?mid")
      case True
      have "idx < ?mid"
      proof (rule ccontr)
        assume "\<not> idx < ?mid"
        then have "?mid < idx" using False "1.prems" by (cases "?mid = idx") auto
        then have "d_hash d ! nat ?mid < d_hash d ! nat idx"
          using "1.prems" m unfolding strict_on_def by auto
        then show False using True "1.prems" by simp
      qed
      then have "binsearch_loop d hashu lower (?mid - 1) = Inr idx"
        using "1.IH"(1) [OF _ r False True] "1.prems" m mt by auto
      then show ?thesis using True False r "1.prems" by (subst binsearch_loop.simps) simp
    next
      case g: False
      have "?mid < idx"
      proof (rule ccontr)
        assume "\<not> ?mid < idx"
        then have "idx < ?mid" using False "1.prems" by (cases "?mid = idx") auto
        then have "d_hash d ! nat idx < d_hash d ! nat ?mid"
          using "1.prems" m mt unfolding strict_on_def by auto
        then show False using g False "1.prems" by simp
      qed
      then have "binsearch_loop d hashu (?mid + 1) upper = Inr idx"
        using "1.IH"(2) [OF _ r False g] "1.prems" m mt by auto
      then show ?thesis using g False r "1.prems" by (subst binsearch_loop.simps) simp
    qed
  qed
qed




subsection \<open>Lookups in a valid dictionary\<close>

lemma sorted_wrt_drop_strict:
  assumes "sorted_wrt (<) (drop (nat lo) hs)" "0 \<le> lo" "hi < int (length hs)"
  shows "strict_on hs lo hi"
  unfolding strict_on_def
proof (intro allI impI)
  fix a b assume ab: "lo \<le> a \<and> a < b \<and> b \<le> hi"
  let ?i = "nat a - nat lo" and ?j = "nat b - nat lo"
  have "?i < ?j" "?j < length (drop (nat lo) hs)" using ab assms by auto
  then have "drop (nat lo) hs ! ?i < drop (nat lo) hs ! ?j"
    using assms(1) by (simp add: sorted_wrt_iff_nth_less)
  moreover have "drop (nat lo) hs ! ?i = hs ! nat a" "drop (nat lo) hs ! ?j = hs ! nat b"
    using ab assms by auto
  ultimately show "hs ! nat a < hs ! nat b" by simp
qed

lemma strict_on_asc: "strict_on hs lo hi \<Longrightarrow> asc_on hs lo hi"
  unfolding strict_on_def asc_on_def
proof (intro allI impI)
  fix a b assume h: "\<forall>a b. lo \<le> a \<and> a < b \<and> b \<le> hi \<longrightarrow> hs ! nat a < hs ! nat b" and ab: "lo \<le> a \<and> a \<le> b \<and> b \<le> hi"
  show "hs ! nat a \<le> hs ! nat b"
  proof (cases "a = b")
    case True then show ?thesis by simp
  next
    case False
    then have "hs ! nat a < hs ! nat b" using h ab by auto
    then show ?thesis by simp
  qed
qed




subsection \<open>Sorting a strictly sorted dictionary\<close>

lemma quick_loop_strict:
  assumes "0 \<le> first_ix" "first_ix < last_ix" "last_ix < int (length (d_hash d))"
    and "strict_on (d_hash d) first_ix last_ix"
  shows "quick_loop d (d_hash d ! nat first_ix) last_ix first_ix last_ix = Some (Inr (d, first_ix))"
proof -
  obtain j where q: "quick_loop d (d_hash d ! nat first_ix) last_ix first_ix last_ix = Some (Inr (d, j))"
    and j: "first_ix \<le> j" "j \<le> last_ix" "d_hash d ! nat j = d_hash d ! nat first_ix"
    using quick_loop_sorted [OF assms(1,2,3) strict_on_asc [OF assms(4)]] by blast
  have "j = first_ix"
  proof (rule ccontr)
    assume "j \<noteq> first_ix"
    then have "first_ix \<le> first_ix \<and> first_ix < j \<and> j \<le> last_ix" using j by simp
    then have "d_hash d ! nat first_ix < d_hash d ! nat j"
      using assms(4) unfolding strict_on_def by blast
    then show False using j(3) by simp
  qed
  then show ?thesis using q by simp
qed

lemma quicksort_strict:
  assumes "0 \<le> first_ix" "last_ix < int (length (d_hash d))"
    and "length (d_key d) = length (d_hash d)" "length (d_val d) = length (d_hash d)"
    and "strict_on (d_hash d) first_ix last_ix"
  shows "dictionary_quicksort d first_ix last_ix = Some (Inr d)"
  using assms
proof (induction "nat (last_ix - first_ix)" arbitrary: first_ix rule: less_induct)
  case less
  show ?case
  proof (cases "first_ix < last_ix")
    case False
    then show ?thesis by (subst dictionary_quicksort.simps) simp
  next
    case True
    have q: "quick_loop d (d_hash d ! nat first_ix) last_ix first_ix last_ix = Some (Inr (d, first_ix))"
      using quick_loop_strict [OF less.prems(1) True less.prems(2,5)] .
    have sw: "doSwap d first_ix first_ix = Inr d"
      using less.prems True by (subst doSwap_Inr) auto
    have l: "dictionary_quicksort d first_ix (first_ix - 1) = Some (Inr d)"
      by (subst dictionary_quicksort.simps) simp
    have "strict_on (d_hash d) (first_ix + 1) last_ix"
      using less.prems(5) unfolding strict_on_def by auto
    then have r: "dictionary_quicksort d (first_ix + 1) last_ix = Some (Inr d)"
      using less.hyps [of "first_ix + 1"] less.prems True by auto
    show ?thesis
      using True less.prems(1,2) q sw l r
      by (subst dictionary_quicksort.simps) (simp add: rd_def)
  qed
qed

lemma createsortedlist_full:
  assumes "0 < d_n d" "0 < d_size d" "length (d_hash d) = nat (d_size d)"
    and "length (d_key d) = nat (d_size d)" "length (d_val d) = nat (d_size d)"
    and "strict_on (d_hash d) 0 (d_size d - 1)" "d_hash d ! 0 \<noteq> 0"
  shows "dictionary_createsortedlist d = Inr (d\<lparr>d_lower := 0\<rparr>)"
proof -
  have q: "dictionary_quicksort d 0 (d_size d - 1) = Some (Inr d)"
    using assms by (intro quicksort_strict) auto
  have c: "csl_loop d 0 = Inr (d\<lparr>d_lower := 0\<rparr>)"
    using assms by (subst csl_loop.simps) (simp add: rd_def)
  show ?thesis using assms(1) q c by (simp add: dictionary_createsortedlist_def)
qed



subsection \<open>The invariant of the sorted region\<close>






























subsection \<open>The scenarios\<close>




lemma hash_bhks: "dictionary_hash ''bhks'' = 712"
  by code_simp

lemma hash_uuid_0033: "dictionary_hash ''uuid-0033'' = 712"
  by code_simp

lemma full64_resort: "dictionary_createsortedlist full64 = Inr sorted64"
proof -
  have "sorted_wrt (<) (drop (nat 0) (d_hash full64))" by code_simp
  then have s: "strict_on (d_hash full64) 0 (d_size full64 - 1)"
    by (rule sorted_wrt_drop_strict) (simp_all add: full64_def)
  show ?thesis
    unfolding sorted64_def
    by (rule createsortedlist_full [OF _ _ _ _ _ s]) (simp_all add: full64_def)
qed

lemma full64_search: "dictionary_binsearch full64 712 = Inr (sorted64, 0)"
proof -
  have "sorted_wrt (<) (drop (nat 0) (d_hash sorted64))" by code_simp
  then have s: "strict_on (d_hash sorted64) 0 (d_size sorted64 - 1)"
    by (rule sorted_wrt_drop_strict) (simp_all add: full64_def sorted64_def)
  have "binsearch_loop sorted64 712 (d_lower sorted64) (d_size sorted64) = Inr 0"
    by (rule binsearch_loop_found [OF s]) (simp_all add: full64_def sorted64_def)
  moreover have "d_n full64 \<noteq> 0" "d_lower full64 < 0" "\<not> d_lower sorted64 < 0"
    by (simp_all add: full64_def sorted64_def)
  ultimately show ?thesis
    by (simp add: dictionary_binsearch_def full64_resort)
qed


section \<open>The claims\<close>

text \<open>
  C1. A key whose hash collides with a live key is to be rejected with the dictionary
  unchanged. In the full dictionary \<open>full64\<close> the key \<^verbatim>\<open>"uuid-0033"\<close> is in row 0; the search
  for \<^verbatim>\<open>"bhks"\<close>, which has the same hash, returns index 0, which \<^verbatim>\<open>if ( i>0 )\<close> in
  \<^verbatim>\<open>dictionary_set\<close> takes for a miss: the call returns 0 and adds \<^verbatim>\<open>"bhks"\<close>.
\<close>

theorem collision_accepted_when_full:
  "d_n full64 = d_size full64 \<and> rd (d_key full64) 0 = Inr (Some ''uuid-0033'') \<and>
   dictionary_hash ''bhks'' = dictionary_hash ''uuid-0033'' \<and>
   dictionary_set full64 (Some ''bhks'') (Some ''x'') = Inr (bhks128, 0) \<and>
   rd (d_key bhks128) 63 = Inr (Some ''bhks'') \<and> rd (d_key bhks128) 64 = Inr (Some ''uuid-0033'')"
proof -
  have "dictionary_set full64 (Some ''bhks'') (Some ''x'') = Inr (bhks128, 0)"
    unfolding dictionary_set_def option.case hash_bhks full64_search sum.case prod.case
    by code_simp
  moreover have "d_n full64 = d_size full64 \<and> rd (d_key full64) 0 = Inr (Some ''uuid-0033'') \<and>
     rd (d_key bhks128) 63 = Inr (Some ''bhks'') \<and> rd (d_key bhks128) 64 = Inr (Some ''uuid-0033'')"
    by code_simp
  ultimately show ?thesis by (simp add: hash_bhks hash_uuid_0033)
qed

text \<open>
  C2. After \<^verbatim>\<open>dictionary_set(d, "sda1", NULL)\<close> on the fresh dictionary, the call
  \<^verbatim>\<open>dictionary_set(d, "sda1", "/boot")\<close> returns 0 and stores nothing, and
  \<^verbatim>\<open>dictionary_get\<close> returns \<^verbatim>\<open>NULL\<close>, not \<^verbatim>\<open>"/boot"\<close>.
\<close>

theorem set_after_null_keeps_null:
  "dictionary_set fresh64 (Some ''sda1'') None = Inr (null64, 0) \<and>
   dictionary_set null64 (Some ''sda1'') (Some ''/boot'') = Inr (null64, 0) \<and>
   dictionary_get null64 ''sda1'' (Some ''?'') = Inr (null64, None)"
  by code_simp



text \<open>
  C4, as amended. \<^verbatim>\<open>dictionary_grow\<close> doubles \<open>size\<close>, puts the old rows in the high half
  behind \<open>size\<close> zeroed rows, and adds \<open>size - 1\<close>, not \<open>size\<close>, to \<open>lower\<close>.
\<close>

theorem dictionary_grow_layout:
  assumes "0 \<le> d_size d"
    and "length (d_val d) = nat (d_size d)" and "length (d_key d) = nat (d_size d)"
    and "length (d_hash d) = nat (d_size d)" and "length (d_skeys d) = nat (d_size d)"
  shows "dictionary_grow d =
     Inr (d\<lparr>d_val := replicate (nat (d_size d)) None @ d_val d,
            d_key := replicate (nat (d_size d)) None @ d_key d,
            d_skeys := replicate (nat (d_size d)) 0 @ d_skeys d,
            d_hash := replicate (nat (d_size d)) 0 @ d_hash d,
            d_size := 2 * d_size d,
            d_lower := d_lower d + (d_size d - 1)\<rparr>)"
  using dictionary_grow_Inr [OF assms] by simp

theorem dictionary_grow_layout_witness:
  "dictionary_grow sorted64 =
     Inr (sorted64\<lparr>d_val := replicate 64 None @ d_val sorted64,
            d_key := replicate 64 None @ d_key sorted64,
            d_skeys := replicate 64 0 @ d_skeys sorted64,
            d_hash := replicate 64 0 @ d_hash sorted64,
            d_size := 128, d_lower := 63\<rparr>)"
proof -
  have "0 \<le> d_size sorted64" "length (d_val sorted64) = nat (d_size sorted64)"
    "length (d_key sorted64) = nat (d_size sorted64)"
    "length (d_hash sorted64) = nat (d_size sorted64)"
    "length (d_skeys sorted64) = nat (d_size sorted64)"
    by (simp_all add: sorted64_def full64_def)
  from dictionary_grow_layout [OF this] show ?thesis
    by (simp add: sorted64_def full64_def)
qed

text \<open>
  C4, as stated, at the full dictionary on which \<^verbatim>\<open>dictionary_set\<close> calls
  \<^verbatim>\<open>dictionary_grow\<close>: \<open>lower\<close> goes from 0 to 63, and the old capacity is 64.
\<close>

theorem dictionary_grow_lower_counterexample:
  "d_n sorted64 = d_size sorted64 \<and> d_size sorted64 = 64 \<and> d_lower sorted64 = 0 \<and>
   map_sum id d_lower (dictionary_grow sorted64) = Inr 63"
  by code_simp




text \<open>
  C6. After \<^verbatim>\<open>set\<close> and a successful \<^verbatim>\<open>unset\<close> of a key, \<^verbatim>\<open>get\<close> is to return the
  default. On \<open>full64\<close>, \<^verbatim>\<open>dictionary_set(d, "uuid-0033", "new")\<close> adds a second row for
  the key in row 0 (again \<^verbatim>\<open>if ( i>0 )\<close>), \<^verbatim>\<open>dictionary_unset\<close> removes the new row and
  returns 0, and \<^verbatim>\<open>dictionary_get\<close> returns the old value \<^verbatim>\<open>"sd33"\<close>.
\<close>

theorem unset_leaves_old_value_when_full:
  "dictionary_set full64 (Some ''uuid-0033'') (Some ''new'') = Inr (dup128, 0) \<and>
   dictionary_unset dup128 (Some ''uuid-0033'') = Inr (back128, 0) \<and>
   dictionary_get back128 ''uuid-0033'' (Some ''missing'') = Inr (back128, Some ''sd33'')"
proof -
  have "dictionary_set full64 (Some ''uuid-0033'') (Some ''new'') = Inr (dup128, 0)"
    unfolding dictionary_set_def option.case hash_uuid_0033 full64_search sum.case prod.case
    by code_simp
  moreover have "dictionary_unset dup128 (Some ''uuid-0033'') = Inr (back128, 0)"
    by code_simp
  moreover have "dictionary_get back128 ''uuid-0033'' (Some ''missing'') = Inr (back128, Some ''sd33'')"
    by code_simp
  ultimately show ?thesis by simp
qed






text \<open>
  C9. A dictionary returned by \<^verbatim>\<open>dictionary_new\<close> has \<open>n = 1\<close>: the last row holds a
  sentinel with hash \<open>0xFFFF\<close> and \<^verbatim>\<open>NULL\<close> key and value, \<open>lower\<close> is \<open>size - 2\<close>, and
  \<^verbatim>\<open>dictionary_isempty\<close> answers 0. Every request of at most \<open>0x7FFFFFFC\<close> rows returns
  such a dictionary.
\<close>

theorem dictionary_new_sentinel:
  "(size0 \<le> 0x7FFFFFFC \<longrightarrow> (\<exists>d. dictionary_new size0 fname = Inr d)) \<and>
   (\<forall>d. dictionary_new size0 fname = Inr d \<longrightarrow>
      d_n d = 1 \<and> rd (d_hash d) (d_size d - 1) = Inr 0xFFFF \<and>
      rd (d_key d) (d_size d - 1) = Inr None \<and> rd (d_val d) (d_size d - 1) = Inr None \<and>
      d_lower d = d_size d - 2 \<and> dictionary_isempty d = 0)"
proof (intro conjI allI impI)
  assume "size0 \<le> 0x7FFFFFFC"
  then have "1 \<le> sint (new_size size0)"
    using new_size_ok [of size0] by linarith
  then show "\<exists>d. dictionary_new size0 fname = Inr d"
    unfolding dictionary_new_Inr by blast
next
  fix d
  assume "dictionary_new size0 fname = Inr d"
  then have p: "1 \<le> sint (new_size size0)"
    and d: "d = \<lparr> d_filename = fname, d_n = 1, d_size = sint (new_size size0),
           d_lower = sint (new_size size0) - 2, d_info = 0,
           d_key = replicate (unat (new_size size0)) None,
           d_val = replicate (unat (new_size size0)) None,
           d_hash = (replicate (unat (new_size size0)) 0)[nat (sint (new_size size0) - 1) := - 1],
           d_skeys = replicate (unat (new_size size0)) 0 \<rparr>"
    unfolding dictionary_new_Inr by blast+
  have s: "sint (new_size size0) = int (unat (new_size size0))"
    using p sint_pos_unat [of "new_size size0"] by simp
  have i: "nat (sint (new_size size0) - 1) < unat (new_size size0)"
    using p s by linarith
  have r: "0 \<le> d_size d - 1 \<and> d_size d - 1 < int (unat (new_size size0))"
    using p s by (simp add: d)
  show "d_n d = 1" by (simp add: d)
  show "rd (d_hash d) (d_size d - 1) = Inr 0xFFFF"
    unfolding rd_Inr using r i by (simp add: d)
  show "rd (d_key d) (d_size d - 1) = Inr None"
    unfolding rd_Inr using r i by (simp add: d)
  show "rd (d_val d) (d_size d - 1) = Inr None"
    unfolding rd_Inr using r i by (simp add: d)
  show "d_lower d = d_size d - 2" by (simp add: d)
  show "dictionary_isempty d = 0" by (simp add: d dictionary_isempty_def)
qed

theorem dictionary_new_sentinel_witness:
  "\<exists>d. dictionary_new 0 ''fstab'' = Inr d \<and> d_n d = 1 \<and> d_size d = 64 \<and> d_lower d = 62 \<and>
       rd (d_hash d) 63 = Inr 0xFFFF \<and> rd (d_key d) 63 = Inr None \<and> rd (d_val d) 63 = Inr None \<and>
       dictionary_isempty d = 0"
proof -
  obtain d where d: "dictionary_new 0 ''fstab'' = Inr d"
    using dictionary_new_sentinel [of 0 "''fstab''"] by auto
  have sz: "d_size d = 64" using d by (simp add: dictionary_new_Inr new_size_def DICTMINSZ_def) 
  show ?thesis
    using dictionary_new_sentinel [of 0 "''fstab''"] d sz by auto
qed



end
